theory Spec2Isabelle
  imports Complex_Main
begin

section \<open>Python values used by the backend\<close>

text \<open>
  The video reader reports its properties as Python floats (\<open>cap.get\<close> returns a
  double). A finite float is a rational number; the three special values are kept
  apart because \<open>int()\<close> raises on them. Negative zero is the rational 0.
\<close>

datatype pyfloat = Finite rat | NaN | PosInf | NegInf

datatype exn =
    RuntimeError string
  | ValueError string
  | OverflowError string
  | OSError string
  | LibraryError string

text \<open>\<open>bool(x)\<close> of a float: false exactly for zero; NaN and the infinities are true.\<close>

definition truthy :: "pyfloat \<Rightarrow> bool" where
  "truthy v = (v \<noteq> Finite 0)"

text \<open>\<open>int(x)\<close> of a float truncates toward zero and raises on NaN and infinities.\<close>

definition trunc_toward_zero :: "rat \<Rightarrow> int" where
  "trunc_toward_zero q = (if 0 \<le> q then \<lfloor>q\<rfloor> else \<lceil>q\<rceil>)"

fun py_int :: "pyfloat \<Rightarrow> exn + int" where
  "py_int (Finite q) = Inr (trunc_toward_zero q)"
| "py_int NaN = Inl (ValueError ''cannot convert float NaN to integer'')"
| "py_int PosInf = Inl (OverflowError ''cannot convert float infinity to integer'')"
| "py_int NegInf = Inl (OverflowError ''cannot convert float infinity to integer'')"

text \<open>JSON-like values: the sample dictionaries and the response payload.\<close>

datatype pyvalue =
    Str string
  | Num pyfloat
  | Lst "pyvalue list"
  | Dict "(string \<times> pyvalue) list"

type_synonym pydict = "(string \<times> pyvalue) list"

text \<open>
  The JSON response is rendered with \<open>allow_nan=False\<close>: a value renders only if
  every float in it is finite.
\<close>

fun json_compliant :: "pyvalue \<Rightarrow> bool" where
  "json_compliant (Str s) = True"
| "json_compliant (Num v) = (case v of Finite q \<Rightarrow> True | _ \<Rightarrow> False)"
| "json_compliant (Lst vs) = list_all json_compliant vs"
| "json_compliant (Dict kvs) = list_all (\<lambda>kv. json_compliant (snd kv)) kvs"

section \<open>Frames, landmarks and the external libraries\<close>

text \<open>
  A frame is its pixel matrix, a list of rows. \<open>cv2.rotate(frame, ROTATE_90_CLOCKWISE)\<close>
  turns the bottom row into the first column: the result's row \<open>i\<close> reads column \<open>i\<close> of
  the input from the bottom row upwards.
\<close>

type_synonym frame = "nat list list"

definition rotate_90_clockwise :: "frame \<Rightarrow> frame" where
  "rotate_90_clockwise m = transpose (rev m)"


text \<open>A path: its directory and its final component.\<close>

record path =
  parent :: string
  name :: string

definition with_name :: "path \<Rightarrow> string \<Rightarrow> path" where
  "with_name p n = p\<lparr>name := n\<rparr>"

record landmark =
  lm_x :: pyfloat
  lm_y :: pyfloat
  lm_visibility :: pyfloat

text \<open>
  What the libraries decide is a parameter of the model: the name of
  \<open>PoseLandmark(idx)\<close> (which raises for an index outside the enumeration); the value
  that drawing the skeleton leaves in the pixel at a row and a column of a frame;
  the stem and the suffix of a file name; and whether a video writer constructed for
  a path, a codec, a frame rate and a frame size opens. The constructor does not
  raise when it fails to open the file: it yields a writer that is not opened.
\<close>

record library =
  pose_landmark_name :: "nat \<Rightarrow> exn + string"
  painted :: "frame \<Rightarrow> landmark list \<Rightarrow> nat \<Rightarrow> nat \<Rightarrow> nat"
  path_stem :: "string \<Rightarrow> string"
  path_suffix :: "string \<Rightarrow> string"
  writer_opens :: "path \<Rightarrow> string \<Rightarrow> pyfloat \<Rightarrow> int \<times> int \<Rightarrow> bool"

text \<open>
  \<open>draw_landmarks\<close> draws into the array it is given: any pixel may change, the
  shape of the array does not.
\<close>

definition draw_landmarks :: "library \<Rightarrow> frame \<Rightarrow> landmark list \<Rightarrow> frame" where
  "draw_landmarks lib frame lms =
     map (\<lambda>i. map (\<lambda>j. painted lib frame lms i j) [0..<length (frame ! i)])
       [0..<length frame]"

text \<open>
  What one iteration of the loop meets: the frame \<open>cap.read()\<close> returned, the
  \<open>pose_landmarks\<close> of the estimator's result for it, and the library call of this
  iteration that raises, if one does.
\<close>

datatype site = CvtColor | Process | DrawLandmarks | Rotate | Write

record frame_input =
  pixels :: frame
  pose_landmarks :: "landmark list option"
  fault :: "(site \<times> exn) option"

text \<open>
  The video behind a path: whether it opens, the three properties it reports, and the
  frames that \<open>cap.read()\<close> delivers before its first unsuccessful read (the end of
  the stream or a read failure; the loop cannot tell them apart).
\<close>

record video =
  is_opened :: bool
  frame_width :: pyfloat
  frame_height :: pyfloat
  frame_rate :: pyfloat
  frames :: "frame_input list"

section \<open>State of one analysis run\<close>

text \<open>
  A video writer: the arguments it was constructed with, whether it opened, the
  frames encoded into the output file so far, and whether it has been released.
  The size is (width, height), as cv2 takes it.
\<close>

record vwriter =
  w_path :: path
  w_fourcc :: string
  w_fps :: pyfloat
  w_size :: "int \<times> int"
  w_opened :: bool
  w_frames :: "frame list"
  w_released :: bool

datatype session = NotCreated | Entered | Exited

record state =
  cap_released :: bool
  writer :: "vwriter option"
  pose :: session
  keypoints_samples :: "pydict list list"
  frame_index :: nat

definition initial_state :: state where
  "initial_state =
     \<lparr>cap_released = False, writer = None, pose = NotCreated,
      keypoints_samples = [], frame_index = 0\<rparr>"

definition VideoWriter ::
  "library \<Rightarrow> path \<Rightarrow> string \<Rightarrow> pyfloat \<Rightarrow> int \<times> int \<Rightarrow> vwriter" where
  "VideoWriter lib p fourcc fps sz =
     \<lparr>w_path = p, w_fourcc = fourcc, w_fps = fps, w_size = sz,
      w_opened = writer_opens lib p fourcc fps sz,
      w_frames = [], w_released = False\<rparr>"

text \<open>
  \<open>writer.write(frame)\<close> returns nothing and never raises for a frame it does not
  take: a writer that did not open drops every frame, and an opened writer encodes
  only a frame of the size it was opened at.
\<close>

definition frame_fits :: "int \<times> int \<Rightarrow> frame \<Rightarrow> bool" where
  "frame_fits sz f =
     (int (length f) = snd sz \<and> list_all (\<lambda>row. int (length row) = fst sz) f)"

definition write_frame :: "frame \<Rightarrow> vwriter \<Rightarrow> vwriter" where
  "write_frame f w =
     (if w_opened w \<and> frame_fits (w_size w) f then w\<lparr>w_frames := w_frames w @ [f]\<rparr>
      else w)"

definition release :: "vwriter \<Rightarrow> vwriter" where
  "release w = w\<lparr>w_released := True\<rparr>"

section \<open>analyze_video\<close>

text \<open>
  The function is modelled with its effects: it yields what it returns or the
  exception it raises, and the state it leaves behind. The constructors of the writer
  and of the pose session do not raise; inside the loop, any of the five library
  calls may raise, as the \<open>fault\<close> of the frame says.
\<close>

definition raises :: "site \<Rightarrow> frame_input \<Rightarrow> exn option" where
  "raises s fi =
     (case fault fi of
        None \<Rightarrow> None
      | Some (s', e) \<Rightarrow> if s' = s then Some e else None)"

text \<open>The list comprehension of lines 75 to 83, over \<open>enumerate(landmark)\<close>.\<close>

fun landmark_dicts :: "library \<Rightarrow> nat \<Rightarrow> landmark list \<Rightarrow> exn + pydict list" where
  "landmark_dicts lib idx [] = Inr []"
| "landmark_dicts lib idx (lm # lms) =
     (case pose_landmark_name lib idx of
        Inl e \<Rightarrow> Inl e
      | Inr n \<Rightarrow>
          (case landmark_dicts lib (Suc idx) lms of
             Inl e \<Rightarrow> Inl e
           | Inr ds \<Rightarrow>
               Inr ([(''name'', Str n), (''x'', Num (lm_x lm)), (''y'', Num (lm_y lm)),
                     (''visibility'', Num (lm_visibility lm))] # ds)))"

text \<open>Lines 64 to 84: drawing and sampling, only when a pose was detected.\<close>

definition detect_step ::
  "library \<Rightarrow> int \<Rightarrow> frame_input \<Rightarrow> state \<Rightarrow> exn + (frame \<times> state)" where
  "detect_step lib sample_interval fi st =
     (case pose_landmarks fi of
        None \<Rightarrow> Inr (pixels fi, st)
      | Some lms \<Rightarrow>
          (case raises DrawLandmarks fi of
             Some e \<Rightarrow> Inl e
           | None \<Rightarrow>
               let frame = draw_landmarks lib (pixels fi) lms in
               if int (frame_index st) mod sample_interval = 0
                  \<and> length (keypoints_samples st) < 3
               then (case landmark_dicts lib 0 lms of
                       Inl e \<Rightarrow> Inl e
                     | Inr ds \<Rightarrow>
                         Inr (frame,
                              st\<lparr>keypoints_samples := keypoints_samples st @ [ds]\<rparr>))
               else Inr (frame, st)))"

text \<open>Lines 86 to 88: rotate, write, count.\<close>

definition write_step :: "frame_input \<Rightarrow> frame \<Rightarrow> state \<Rightarrow> exn option \<times> state" where
  "write_step fi frame st =
     (case raises Rotate fi of
        Some e \<Rightarrow> (Some e, st)
      | None \<Rightarrow>
          let rotated_frame = rotate_90_clockwise frame in
          (case raises Write fi of
             Some e \<Rightarrow> (Some e, st)
           | None \<Rightarrow>
               (None, st\<lparr>writer := map_option (write_frame rotated_frame) (writer st),
                          frame_index := frame_index st + 1\<rparr>)))"

definition loop_body ::
  "library \<Rightarrow> int \<Rightarrow> frame_input \<Rightarrow> state \<Rightarrow> exn option \<times> state" where
  "loop_body lib sample_interval fi st =
     (case raises CvtColor fi of
        Some e \<Rightarrow> (Some e, st)
      | None \<Rightarrow>
          (case raises Process fi of
             Some e \<Rightarrow> (Some e, st)
           | None \<Rightarrow>
               (case detect_step lib sample_interval fi st of
                  Inl e \<Rightarrow> (Some e, st)
                | Inr (frame, st') \<Rightarrow> write_step fi frame st')))"

text \<open>
  The \<open>while True\<close> loop: it ends at the first unsuccessful read (the list is
  exhausted) or at the first exception, which leaves the loop with the state reached.
\<close>

fun frame_loop ::
  "library \<Rightarrow> int \<Rightarrow> frame_input list \<Rightarrow> state \<Rightarrow> exn option \<times> state" where
  "frame_loop lib sample_interval [] st = (None, st)"
| "frame_loop lib sample_interval (fi # rest) st =
     (case loop_body lib sample_interval fi st of
        (Some e, st') \<Rightarrow> (Some e, st')
      | (None, st') \<Rightarrow> frame_loop lib sample_interval rest st')"

text \<open>Lines 37 to 39 and 53: the \<open>or\<close> defaults and the sampling interval.\<close>

definition width_of :: "pyfloat \<Rightarrow> exn + int" where
  "width_of v = (case py_int v of Inl e \<Rightarrow> Inl e | Inr n \<Rightarrow> Inr (if n \<noteq> 0 then n else 640))"

definition height_of :: "pyfloat \<Rightarrow> exn + int" where
  "height_of v = (case py_int v of Inl e \<Rightarrow> Inl e | Inr n \<Rightarrow> Inr (if n \<noteq> 0 then n else 480))"

definition fps_of :: "pyfloat \<Rightarrow> pyfloat" where
  "fps_of v = (if truthy v then v else Finite 30)"

definition sample_interval_of :: "pyfloat \<Rightarrow> exn + int" where
  "sample_interval_of fps = (case py_int fps of Inl e \<Rightarrow> Inl e | Inr n \<Rightarrow> Inr (max n 1))"

text \<open>The message of line 35, with its o-umlaut as the two bytes of UTF-8.\<close>

definition open_failure :: exn where
  "open_failure =
     RuntimeError (''Video konnte nicht ge'' @ [CHR 0xC3, CHR 0xB6] @ ''ffnet werden'')"

text \<open>
  Leaving the \<open>with\<close> block exits the pose session on both paths. The two
  \<open>release\<close> calls of lines 90 and 91 follow the block and are reached only when
  the loop ended without an exception.
\<close>

definition analyze_video ::
  "library \<Rightarrow> path \<Rightarrow> video \<Rightarrow> (exn + string \<times> pydict list list) \<times> state" where
  "analyze_video lib video_path cap =
     (if \<not> is_opened cap then (Inl open_failure, initial_state)
      else
        case width_of (frame_width cap) of
          Inl e \<Rightarrow> (Inl e, initial_state)
        | Inr width \<Rightarrow>
        case height_of (frame_height cap) of
          Inl e \<Rightarrow> (Inl e, initial_state)
        | Inr height \<Rightarrow>
        let fps = fps_of (frame_rate cap);
            annotated_path =
              with_name video_path
                (path_stem lib (name video_path) @ ''_annotated''
                   @ path_suffix lib (name video_path));
            st1 = initial_state
                    \<lparr>writer :=
                       Some (VideoWriter lib annotated_path ''mp4v'' fps (height, width))\<rparr>
        in
        case sample_interval_of fps of
          Inl e \<Rightarrow> (Inl e, st1)
        | Inr sample_interval \<Rightarrow>
        case frame_loop lib sample_interval (frames cap) (st1\<lparr>pose := Entered\<rparr>) of
          (Some e, st2) \<Rightarrow> (Inl e, st2\<lparr>pose := Exited\<rparr>)
        | (None, st2) \<Rightarrow>
            (Inr (name annotated_path, keypoints_samples st2),
             st2\<lparr>pose := Exited, cap_released := True,
                 writer := map_option release (writer st2)\<rparr>))"

section \<open>upload_video\<close>

text \<open>
  The handler ends in one of three ways: it returns the JSON response; it raises the
  \<open>HTTPException\<close> of line 109, which the framework answers with that status and
  detail; or an exception escapes it, which the framework answers with its own
  status 500 and the body \<open>Internal Server Error\<close>.
\<close>

datatype failure =
    HTTPException int string
  | Unhandled exn

text \<open>
  Lines 98 to 117. The timestamp and the random token are inputs, and so is the
  outcome of storing the upload (lines 102 to 104), which stands before the \<open>try\<close>.
  The \<open>except\<close> clause catches the exceptions of class \<open>Exception\<close>, which are
  the ones modelled. The response of line 111 is built after the \<open>try\<close>, and
  building it renders the payload.
\<close>

definition JSONResponse :: "pydict \<Rightarrow> exn + pydict" where
  "JSONResponse content =
     (if json_compliant (Dict content) then Inr content
      else Inl (ValueError ''Out of range float values are not JSON compliant''))"

definition upload_video ::
  "library \<Rightarrow> string \<Rightarrow> string \<Rightarrow> string \<Rightarrow> string \<Rightarrow> exn option \<Rightarrow> video
     \<Rightarrow> failure + pydict" where
  "upload_video lib upload_dir timestamp token filename store_fault cap =
     (let generated_name = timestamp @ ''_'' @ token @ ''_'' @ filename;
          target_path = \<lparr>parent = upload_dir, name = generated_name\<rparr>
      in
      case store_fault of
        Some e \<Rightarrow> Inl (Unhandled e)
      | None \<Rightarrow>
      case fst (analyze_video lib target_path cap) of
        Inl exc \<Rightarrow> Inl (HTTPException 500 ''Analyse des Videos fehlgeschlagen'')
      | Inr (annotated_name, keypoints) \<Rightarrow>
          (case JSONResponse
                  [(''message'', Str ''Video erfolgreich analysiert''),
                   (''filename'', Str generated_name),
                   (''annotated'', Str annotated_name),
                   (''keypoints'', Lst (map (\<lambda>sample. Lst (map Dict sample)) keypoints))] of
             Inl e \<Rightarrow> Inl (Unhandled e)
           | Inr response \<Rightarrow> Inr response))"

section \<open>Derived notions used in the statements\<close>

text \<open>The frame as it reaches the rotation: with the skeleton drawn when a pose was found.\<close>

definition annotated :: "library \<Rightarrow> frame_input \<Rightarrow> frame" where
  "annotated lib fi =
     (case pose_landmarks fi of
        None \<Rightarrow> pixels fi
      | Some lms \<Rightarrow> draw_landmarks lib (pixels fi) lms)"

text \<open>The name of the annotated file and the state in which the loop is entered.\<close>

definition annotated_name_of :: "library \<Rightarrow> path \<Rightarrow> string" where
  "annotated_name_of lib video_path =
     path_stem lib (name video_path) @ ''_annotated'' @ path_suffix lib (name video_path)"

definition entry_state :: "library \<Rightarrow> path \<Rightarrow> video \<Rightarrow> int \<Rightarrow> int \<Rightarrow> state" where
  "entry_state lib video_path cap width height =
     initial_state
       \<lparr>writer := Some (VideoWriter lib
                          (with_name video_path (annotated_name_of lib video_path))
                          ''mp4v'' (fps_of (frame_rate cap)) (height, width)),
        pose := Entered\<rparr>"

text \<open>The writer of line 42, as constructed.\<close>

definition output_writer :: "library \<Rightarrow> path \<Rightarrow> video \<Rightarrow> int \<Rightarrow> int \<Rightarrow> vwriter" where
  "output_writer lib video_path cap width height =
     VideoWriter lib (with_name video_path (annotated_name_of lib video_path)) ''mp4v''
       (fps_of (frame_rate cap)) (height, width)"

text \<open>The frames of a list that a writer takes, in order.\<close>

definition taken_frames :: "vwriter \<Rightarrow> frame list \<Rightarrow> frame list" where
  "taken_frames w fs = (if w_opened w then filter (frame_fits (w_size w)) fs else [])"

text \<open>
  The sampling slots of a video with a detection: the landmark lists of the frames
  whose index, counted from \<open>k\<close>, is a multiple of the interval and on which a pose was
  found, in frame order.
\<close>

definition slot_detections :: "int \<Rightarrow> nat \<Rightarrow> frame_input list \<Rightarrow> landmark list list" where
  "slot_detections si k fs =
     List.map_filter
       (\<lambda>(i, fi). if int i mod si = 0 then pose_landmarks fi else None)
       (zip [k..<k + length fs] fs)"

text \<open>
  The interval as the specification words it, \<open>max(round(frame_rate), 1)\<close>, with
  Python's \<open>round\<close> (to the nearest integer, a tie to the even one).
\<close>

definition round_half_even :: "rat \<Rightarrow> int" where
  "round_half_even q =
     (let f = \<lfloor>q\<rfloor>; d = q - of_int f
      in if d < 1 / 2 then f else if 1 / 2 < d then f + 1 else if even f then f else f + 1)"

definition spec_sample_interval :: "rat \<Rightarrow> int" where
  "spec_sample_interval fps = max (round_half_even fps) 1"

section \<open>A small video to run the definitions on\<close>

text \<open>
  A library in which every landmark is named alike, drawing adds one to every pixel,
  a name splits at its first dot, and a writer opens when the file name has a suffix
  to tell the container by.
\<close>

definition demo_library :: library where
  "demo_library =
     \<lparr>pose_landmark_name =
        (\<lambda>idx. if idx < 33 then Inr ''NOSE'' else Inl (ValueError ''not a valid PoseLandmark'')),
      painted = (\<lambda>frame lms i j. Suc (frame ! i ! j)),
      path_stem = takeWhile (\<lambda>c. c \<noteq> CHR ''.''),
      path_suffix = dropWhile (\<lambda>c. c \<noteq> CHR ''.''),
      writer_opens = (\<lambda>p fourcc fps sz. dropWhile (\<lambda>c. c \<noteq> CHR ''.'') (name p) \<noteq> [])\<rparr>"

definition demo_path :: path where
  "demo_path = \<lparr>parent = ''uploads'', name = ''clip.mp4''\<rparr>"


definition demo_landmark :: landmark where
  "demo_landmark = \<lparr>lm_x = Finite (1 / 2), lm_y = Finite (1 / 4), lm_visibility = Finite 1\<rparr>"

definition demo_frame :: "bool \<Rightarrow> frame_input" where
  "demo_frame detected =
     \<lparr>pixels = [[1, 2, 3, 4], [5, 6, 7, 8]],
      pose_landmarks = (if detected then Some [demo_landmark] else None),
      fault = None\<rparr>"

text \<open>
  Five frames of 4 by 2 pixels at 2 frames per second: the slots are the frames 0, 2
  and 4, and no pose is found on frame 2.
\<close>

definition demo_video :: video where
  "demo_video =
     \<lparr>is_opened = True, frame_width = Finite 4, frame_height = Finite 2,
      frame_rate = Finite 2,
      frames = [demo_frame True, demo_frame True, demo_frame False, demo_frame True,
                demo_frame True]\<rparr>"

text \<open>The same video with pose estimation raising on its second frame.\<close>

definition faulty_video :: video where
  "faulty_video =
     demo_video
       \<lparr>frames := [demo_frame True,
                   (demo_frame True)\<lparr>fault := Some (Process, LibraryError ''inference failed'')\<rparr>,
                   demo_frame True]\<rparr>"

text \<open>A video of one frame on which the estimator reports a landmark without a position.\<close>

definition nan_video :: video where
  "nan_video =
     demo_video
       \<lparr>frames := [(demo_frame True)\<lparr>pose_landmarks := Some [demo_landmark\<lparr>lm_x := NaN\<rparr>]\<rparr>]\<rparr>"

section \<open>The loop body and the loop\<close>

lemma slot_detections_Nil: "slot_detections si k [] = []"
  by (simp add: slot_detections_def List.map_filter_simps)

lemma slot_detections_Cons:
  "slot_detections si k (fi # fs) =
     (case pose_landmarks fi of
        None \<Rightarrow> []
      | Some lms \<Rightarrow> if int k mod si = 0 then [lms] else [])
     @ slot_detections si (Suc k) fs"
proof -
  have "[k..<k + length (fi # fs)] = k # [Suc k..<Suc k + length fs]"
    by (simp add: upt_conv_Cons del: upt_Suc)
  then show ?thesis
    by (simp add: slot_detections_def List.map_filter_simps split: option.splits)
qed

lemma write_step_None:
  "write_step fi frame st = (None, st') \<Longrightarrow>
     st' = st\<lparr>writer := map_option (write_frame (rotate_90_clockwise frame)) (writer st),
              frame_index := frame_index st + 1\<rparr>"
  by (auto simp: write_step_def Let_def split: option.splits)

lemma write_step_snd:
  "snd (write_step fi frame st) = st
   \<or> snd (write_step fi frame st) =
       st\<lparr>writer := map_option (write_frame (rotate_90_clockwise frame)) (writer st),
          frame_index := frame_index st + 1\<rparr>"
  by (auto simp: write_step_def Let_def split: option.splits)

lemma detect_step_Inr:
  "detect_step lib si fi st = Inr (frame, st') \<Longrightarrow>
     frame = annotated lib fi
     \<and> (\<exists>new. st' = st\<lparr>keypoints_samples := keypoints_samples st @ new\<rparr>
          \<and> map Inr new =
              (case pose_landmarks fi of None \<Rightarrow> []
               | Some lms \<Rightarrow>
                   if int (frame_index st) mod si = 0 \<and> length (keypoints_samples st) < 3
                   then [landmark_dicts lib 0 lms] else []))"
  by (auto simp: detect_step_def annotated_def Let_def
           split: option.splits if_splits sum.splits)

lemma loop_body_None:
  assumes "loop_body lib si fi st = (None, st')"
  shows "\<exists>new. st' = st\<lparr>keypoints_samples := keypoints_samples st @ new,
                        writer := map_option (write_frame (rotate_90_clockwise (annotated lib fi)))
                                    (writer st),
                        frame_index := frame_index st + 1\<rparr>
           \<and> map Inr new =
              (case pose_landmarks fi of None \<Rightarrow> []
               | Some lms \<Rightarrow>
                   if int (frame_index st) mod si = 0 \<and> length (keypoints_samples st) < 3
                   then [landmark_dicts lib 0 lms] else [])"
proof -
  from assms obtain frame st1 where d: "detect_step lib si fi st = Inr (frame, st1)"
    and w: "write_step fi frame st1 = (None, st')"
    by (auto simp: loop_body_def split: option.splits sum.splits)
  from detect_step_Inr [OF d] obtain new where
    f: "frame = annotated lib fi"
    and s: "st1 = st\<lparr>keypoints_samples := keypoints_samples st @ new\<rparr>"
    and n: "map Inr new =
              (case pose_landmarks fi of None \<Rightarrow> []
               | Some lms \<Rightarrow>
                   if int (frame_index st) mod si = 0 \<and> length (keypoints_samples st) < 3
                   then [landmark_dicts lib 0 lms] else [])"
    by blast
  from write_step_None [OF w] f s have
    "st' = st\<lparr>keypoints_samples := keypoints_samples st @ new,
             writer := map_option (write_frame (rotate_90_clockwise (annotated lib fi)))
                         (writer st),
             frame_index := frame_index st + 1\<rparr>"
    by simp
  with n show ?thesis by blast
qed

text \<open>What any iteration, raising or not, can do to the state.\<close>

lemma loop_body_snd:
  "\<exists>new wr k. snd (loop_body lib si fi st) =
       st\<lparr>keypoints_samples := keypoints_samples st @ new,
          writer := map_option wr (writer st), frame_index := k\<rparr>
     \<and> (new = [] \<or> (length new = 1 \<and> length (keypoints_samples st) < 3))
     \<and> (wr = id \<or> (\<exists>f. wr = write_frame f))"
proof -
  have triv: "\<exists>new wr k. st =
       st\<lparr>keypoints_samples := keypoints_samples st @ new,
          writer := map_option wr (writer st), frame_index := k\<rparr>
     \<and> (new = [] \<or> (length new = 1 \<and> length (keypoints_samples st) < 3))
     \<and> (wr = id \<or> (\<exists>f. wr = write_frame f))"
    by (rule exI [of _ "[]"], rule exI [of _ id], rule exI [of _ "frame_index st"])
       (simp add: option.map_id)
  show ?thesis
  proof (cases "raises CvtColor fi")
    case (Some e)
    then show ?thesis using triv by (simp add: loop_body_def)
  next
    case None
    note c = this
    show ?thesis
    proof (cases "raises Process fi")
      case (Some e)
      then show ?thesis using triv c by (simp add: loop_body_def)
    next
      case None
      note p = this
      show ?thesis
      proof (cases "detect_step lib si fi st")
        case (Inl e)
        then show ?thesis using triv c p by (simp add: loop_body_def)
      next
        case (Inr r)
        obtain frame st1 where r: "r = (frame, st1)" by (cases r)
        from Inr r detect_step_Inr [of lib si fi st frame st1] obtain new where
          s: "st1 = st\<lparr>keypoints_samples := keypoints_samples st @ new\<rparr>"
          and n: "map Inr new =
              (case pose_landmarks fi of None \<Rightarrow> []
               | Some lms \<Rightarrow>
                   if int (frame_index st) mod si = 0 \<and> length (keypoints_samples st) < 3
                   then [landmark_dicts lib 0 lms] else [])"
          by auto
        have ln: "new = [] \<or> (length new = 1 \<and> length (keypoints_samples st) < 3)"
        proof -
          have "length new = length (map Inr new :: (exn + pydict list) list)" by simp
          also have "\<dots> = length (case pose_landmarks fi of None \<Rightarrow> []
               | Some lms \<Rightarrow>
                   if int (frame_index st) mod si = 0 \<and> length (keypoints_samples st) < 3
                   then [landmark_dicts lib 0 lms] else [])"
            by (simp only: n)
          finally show ?thesis by (auto split: option.splits if_splits)
        qed
        have b: "loop_body lib si fi st = write_step fi frame st1"
          using c p Inr r by (simp add: loop_body_def)
        from write_step_snd [of fi frame st1] show ?thesis
        proof
          assume "snd (write_step fi frame st1) = st1"
          with b s have "snd (loop_body lib si fi st) =
             st\<lparr>keypoints_samples := keypoints_samples st @ new,
                writer := map_option id (writer st), frame_index := frame_index st\<rparr>"
            by (simp add: option.map_id)
          with ln show ?thesis by blast
        next
          assume "snd (write_step fi frame st1) =
            st1\<lparr>writer := map_option (write_frame (rotate_90_clockwise frame)) (writer st1),
                frame_index := frame_index st1 + 1\<rparr>"
          with b s have "snd (loop_body lib si fi st) =
             st\<lparr>keypoints_samples := keypoints_samples st @ new,
                writer := map_option (write_frame (rotate_90_clockwise frame)) (writer st),
                frame_index := frame_index st + 1\<rparr>"
            by simp
          with ln show ?thesis by blast
        qed
      qed
    qed
  qed
qed

lemma loop_body_keeps:
  shows loop_body_cap: "cap_released (snd (loop_body lib si fi st)) = cap_released st"
    and loop_body_pose: "pose (snd (loop_body lib si fi st)) = pose st"
    and loop_body_bound:
      "length (keypoints_samples st) \<le> 3 \<Longrightarrow>
         length (keypoints_samples (snd (loop_body lib si fi st))) \<le> 3"
    and loop_body_writer:
      "(\<And>f w. g (write_frame f w) = g w) \<Longrightarrow>
         map_option g (writer (snd (loop_body lib si fi st))) = map_option g (writer st)"
proof -
  from loop_body_snd [of lib si fi st] obtain new wr k where
    eq: "snd (loop_body lib si fi st) =
       st\<lparr>keypoints_samples := keypoints_samples st @ new,
          writer := map_option wr (writer st), frame_index := k\<rparr>"
    and new: "new = [] \<or> (length new = 1 \<and> length (keypoints_samples st) < 3)"
    and wr: "wr = id \<or> (\<exists>f. wr = write_frame f)"
    by blast
  show "cap_released (snd (loop_body lib si fi st)) = cap_released st"
    by (simp add: eq)
  show "pose (snd (loop_body lib si fi st)) = pose st"
    by (simp add: eq)
  show "length (keypoints_samples (snd (loop_body lib si fi st))) \<le> 3"
    if "length (keypoints_samples st) \<le> 3"
    using that new by (auto simp: eq)
  show "map_option g (writer (snd (loop_body lib si fi st))) = map_option g (writer st)"
    if "\<And>f w. g (write_frame f w) = g w"
    using that wr by (cases "writer st") (auto simp: eq)
qed

lemma frame_loop_append:
  "frame_loop lib si (xs @ ys) st =
     (case frame_loop lib si xs st of
        (Some e, st') \<Rightarrow> (Some e, st')
      | (None, st') \<Rightarrow> frame_loop lib si ys st')"
  by (induction xs arbitrary: st) (auto split: prod.splits option.splits)

lemma frame_loop_Cons_snd:
  "snd (frame_loop lib si (fi # fs) st) = snd (loop_body lib si fi st)
   \<or> snd (frame_loop lib si (fi # fs) st) =
       snd (frame_loop lib si fs (snd (loop_body lib si fi st)))"
  by (cases "loop_body lib si fi st") (auto split: option.splits)

lemma frame_loop_cap: "cap_released (snd (frame_loop lib si fs st)) = cap_released st"
proof (induction fs arbitrary: st)
  case Nil
  show ?case by simp
next
  case (Cons fi fs)
  from frame_loop_Cons_snd [of lib si fi fs st] show ?case
    by (auto simp: Cons.IH loop_body_cap)
qed

lemma frame_loop_pose: "pose (snd (frame_loop lib si fs st)) = pose st"
proof (induction fs arbitrary: st)
  case Nil
  show ?case by simp
next
  case (Cons fi fs)
  from frame_loop_Cons_snd [of lib si fi fs st] show ?case
    by (auto simp: Cons.IH loop_body_pose)
qed

lemma frame_loop_bound:
  "length (keypoints_samples st) \<le> 3 \<Longrightarrow>
     length (keypoints_samples (snd (frame_loop lib si fs st))) \<le> 3"
proof (induction fs arbitrary: st)
  case Nil
  then show ?case by simp
next
  case (Cons fi fs)
  from Cons.prems have b: "length (keypoints_samples (snd (loop_body lib si fi st))) \<le> 3"
    by (rule loop_body_bound)
  from frame_loop_Cons_snd [of lib si fi fs st] show ?case
    using b Cons.IH [OF b] by auto
qed

lemma frame_loop_writer:
  assumes "\<And>f w. g (write_frame f w) = g w"
  shows "map_option g (writer (snd (frame_loop lib si fs st))) = map_option g (writer st)"
proof (induction fs arbitrary: st)
  case Nil
  show ?case by simp
next
  case (Cons fi fs)
  from frame_loop_Cons_snd [of lib si fi fs st] show ?case
    by (auto simp: Cons.IH loop_body_writer [of g, OF assms])
qed

lemma write_frame_taken:
  "write_frame f w = w\<lparr>w_frames := w_frames w @ taken_frames w [f]\<rparr>"
  by (simp add: write_frame_def taken_frames_def)

lemma taken_frames_update:
  "taken_frames (w\<lparr>w_frames := fs'\<rparr>) fs = taken_frames w fs"
  by (simp add: taken_frames_def)

lemma taken_frames_Cons:
  "taken_frames w [f] @ taken_frames w fs = taken_frames w (f # fs)"
  by (simp add: taken_frames_def)

lemma frame_loop_None_writer:
  "frame_loop lib si fs st = (None, st') \<Longrightarrow>
     writer st' =
       map_option
         (\<lambda>w. w\<lparr>w_frames :=
                 w_frames w
                 @ taken_frames w (map (\<lambda>fi. rotate_90_clockwise (annotated lib fi)) fs)\<rparr>)
         (writer st)
     \<and> frame_index st' = frame_index st + length fs"
proof (induction fs arbitrary: st)
  case Nil
  then show ?case by (cases "writer st") (auto simp: taken_frames_def)
next
  case (Cons fi fs)
  from Cons.prems obtain st1 where b: "loop_body lib si fi st = (None, st1)"
    and r: "frame_loop lib si fs st1 = (None, st')"
    by (auto split: prod.splits option.splits)
  from loop_body_None [OF b] have
    w1: "writer st1 =
           map_option (write_frame (rotate_90_clockwise (annotated lib fi))) (writer st)"
    and i1: "frame_index st1 = frame_index st + 1"
    by auto
  from Cons.IH [OF r] w1 i1 show ?case
    by (cases "writer st")
       (auto simp: write_frame_taken taken_frames_update taken_frames_Cons)
qed

lemma frame_loop_None_samples:
  "frame_loop lib si fs st = (None, st') \<Longrightarrow>
     map Inr (keypoints_samples st') =
       map Inr (keypoints_samples st)
       @ take (3 - length (keypoints_samples st))
           (map (landmark_dicts lib 0) (slot_detections si (frame_index st) fs))"
proof (induction fs arbitrary: st)
  case Nil
  then show ?case by (simp add: slot_detections_Nil)
next
  case (Cons fi fs)
  from Cons.prems obtain st1 where b: "loop_body lib si fi st = (None, st1)"
    and r: "frame_loop lib si fs st1 = (None, st')"
    by (auto split: prod.splits option.splits)
  from loop_body_None [OF b] obtain new where
    k1: "keypoints_samples st1 = keypoints_samples st @ new"
    and i1: "frame_index st1 = Suc (frame_index st)"
    and n: "map Inr new =
              (case pose_landmarks fi of None \<Rightarrow> []
               | Some lms \<Rightarrow>
                   if int (frame_index st) mod si = 0 \<and> length (keypoints_samples st) < 3
                   then [landmark_dicts lib 0 lms] else [])"
    by auto
  let ?rest = "map (landmark_dicts lib 0) (slot_detections si (Suc (frame_index st)) fs)"
  let ?head = "map (landmark_dicts lib 0)
                 (case pose_landmarks fi of None \<Rightarrow> []
                  | Some lms \<Rightarrow> if int (frame_index st) mod si = 0 then [lms] else [])"
  have ih: "map Inr (keypoints_samples st') =
              map Inr (keypoints_samples st) @ map Inr new
              @ take (3 - length (keypoints_samples st) - length new) ?rest"
    using Cons.IH [OF r] by (simp add: k1 i1)
  have "map Inr new @ take (3 - length (keypoints_samples st) - length new) ?rest =
          take (3 - length (keypoints_samples st)) (?head @ ?rest)"
  proof (cases "pose_landmarks fi")
    case None
    with n show ?thesis by simp
  next
    case (Some lms)
    show ?thesis
    proof (cases "int (frame_index st) mod si = 0")
      case False
      with Some n show ?thesis by simp
    next
      case True
      show ?thesis
      proof (cases "length (keypoints_samples st) < 3")
        case True
        with Some \<open>int (frame_index st) mod si = 0\<close> n
        have "map Inr new = [landmark_dicts lib 0 lms]" by simp
        moreover from this have "length new = 1"
          by (metis length_map length_Cons list.size(3) One_nat_def)
        ultimately show ?thesis
          using Some \<open>int (frame_index st) mod si = 0\<close> True
          by (simp add: take_Cons')
      next
        case False
        with Some n have "new = []" by simp
        with False show ?thesis by simp
      qed
    qed
  qed
  with ih show ?case by (simp add: slot_detections_Cons)
qed

lemma analyze_video_loop:
  assumes "is_opened cap"
    and "width_of (frame_width cap) = Inr width"
    and "height_of (frame_height cap) = Inr height"
    and "sample_interval_of (fps_of (frame_rate cap)) = Inr si"
  shows "analyze_video lib p cap =
     (case frame_loop lib si (frames cap) (entry_state lib p cap width height) of
        (Some e, st2) \<Rightarrow> (Inl e, st2\<lparr>pose := Exited\<rparr>)
      | (None, st2) \<Rightarrow>
          (Inr (annotated_name_of lib p, keypoints_samples st2),
           st2\<lparr>pose := Exited, cap_released := True,
               writer := map_option release (writer st2)\<rparr>))"
  using assms
  by (simp add: analyze_video_def entry_state_def annotated_name_of_def Let_def with_name_def
           split: prod.split option.split)

lemma analyze_video_Inr:
  assumes "fst (analyze_video lib p cap) = Inr r"
  obtains width height si st2 where
    "is_opened cap"
    "width_of (frame_width cap) = Inr width"
    "height_of (frame_height cap) = Inr height"
    "sample_interval_of (fps_of (frame_rate cap)) = Inr si"
    "frame_loop lib si (frames cap) (entry_state lib p cap width height) = (None, st2)"
    "r = (annotated_name_of lib p, keypoints_samples st2)"
    "snd (analyze_video lib p cap) =
       st2\<lparr>pose := Exited, cap_released := True, writer := map_option release (writer st2)\<rparr>"
proof -
  from assms have o: "is_opened cap"
    by (auto simp: analyze_video_def split: if_splits)
  from assms o obtain width where w: "width_of (frame_width cap) = Inr width"
    by (cases "width_of (frame_width cap)") (auto simp: analyze_video_def)
  from assms o w obtain height where h: "height_of (frame_height cap) = Inr height"
    by (cases "height_of (frame_height cap)") (auto simp: analyze_video_def)
  from assms o w h obtain si where s: "sample_interval_of (fps_of (frame_rate cap)) = Inr si"
    by (cases "sample_interval_of (fps_of (frame_rate cap))")
       (auto simp: analyze_video_def Let_def)
  note run = analyze_video_loop [OF o w h s, of lib p]
  obtain res st2 where
    l: "frame_loop lib si (frames cap) (entry_state lib p cap width height) = (res, st2)"
    by (cases "frame_loop lib si (frames cap) (entry_state lib p cap width height)")
  from assms run l have n: "res = None" by (cases res) auto
  from assms run l n have r: "r = (annotated_name_of lib p, keypoints_samples st2)" by simp
  from run l n have
    "snd (analyze_video lib p cap) =
       st2\<lparr>pose := Exited, cap_released := True, writer := map_option release (writer st2)\<rparr>"
    by simp
  with o w h s l n r that show thesis by blast
qed

section \<open>Runs of the demo video\<close>

lemmas run_defs =
  analyze_video_def demo_video_def demo_frame_def demo_library_def demo_path_def
  demo_landmark_def width_of_def height_of_def fps_of_def truthy_def
  sample_interval_of_def trunc_toward_zero_def initial_state_def VideoWriter_def
  with_name_def loop_body_def detect_step_def write_step_def raises_def
  rotate_90_clockwise_def draw_landmarks_def write_frame_def frame_fits_def
  release_def Let_def

lemma demo_run:
  "analyze_video demo_library demo_path demo_video =
     (Inr (''clip_annotated.mp4'',
           [[[(''name'', Str ''NOSE''), (''x'', Num (Finite (1 / 2))),
              (''y'', Num (Finite (1 / 4))), (''visibility'', Num (Finite 1))]],
            [[(''name'', Str ''NOSE''), (''x'', Num (Finite (1 / 2))),
              (''y'', Num (Finite (1 / 4))), (''visibility'', Num (Finite 1))]]]),
      \<lparr>cap_released = True,
       writer = Some
         \<lparr>w_path = \<lparr>parent = ''uploads'', name = ''clip_annotated.mp4''\<rparr>,
          w_fourcc = ''mp4v'', w_fps = Finite 2, w_size = (2, 4), w_opened = True,
          w_frames = [[[6, 2], [7, 3], [8, 4], [9, 5]], [[6, 2], [7, 3], [8, 4], [9, 5]],
                      [[5, 1], [6, 2], [7, 3], [8, 4]], [[6, 2], [7, 3], [8, 4], [9, 5]],
                      [[6, 2], [7, 3], [8, 4], [9, 5]]],
          w_released = True\<rparr>,
       pose = Exited,
       keypoints_samples =
           [[[(''name'', Str ''NOSE''), (''x'', Num (Finite (1 / 2))),
              (''y'', Num (Finite (1 / 4))), (''visibility'', Num (Finite 1))]],
            [[(''name'', Str ''NOSE''), (''x'', Num (Finite (1 / 2))),
              (''y'', Num (Finite (1 / 4))), (''visibility'', Num (Finite 1))]]],
       frame_index = 5\<rparr>)"
  by (simp add: run_defs)


lemma faulty_run:
  "analyze_video demo_library demo_path faulty_video =
     (Inl (LibraryError ''inference failed''),
      \<lparr>cap_released = False,
       writer = Some
         \<lparr>w_path = \<lparr>parent = ''uploads'', name = ''clip_annotated.mp4''\<rparr>,
          w_fourcc = ''mp4v'', w_fps = Finite 2, w_size = (2, 4), w_opened = True,
          w_frames = [[[6, 2], [7, 3], [8, 4], [9, 5]]],
          w_released = False\<rparr>,
       pose = Exited,
       keypoints_samples =
           [[[(''name'', Str ''NOSE''), (''x'', Num (Finite (1 / 2))),
              (''y'', Num (Finite (1 / 4))), (''visibility'', Num (Finite 1))]]],
       frame_index = 1\<rparr>)"
  by (simp add: run_defs faulty_video_def)

lemma demo_slots:
  "slot_detections 2 0 (frames demo_video) = [[demo_landmark], [demo_landmark]]"
  by (simp add: slot_detections_Cons slot_detections_Nil demo_video_def demo_frame_def)

section \<open>The sampling interval (C1)\<close>

text \<open>
  C1, as stated, fails: the interval of line 53 is \<open>max(int(fps), 1)\<close>, and \<open>int\<close>
  truncates. A video reporting 29.75 frames per second is sampled every 29 frames,
  where \<open>max(round(fps), 1)\<close> is 30. (The common rate 30000/1001 behaves the same.)
\<close>

theorem sample_interval_round_counterexample:
  "sample_interval_of (fps_of (Finite (119 / 4))) = Inr 29
   \<and> spec_sample_interval (119 / 4) = 30"
  by code_simp

text \<open>
  C1, amended: for every finite frame rate \<open>q\<close> the reader reports, the number of frames
  between keypoint captures is the frame rate after default substitution truncated
  toward zero, or 1 if that is less than 1: 30 for a reported zero, 1 for every other
  rate below 1 (the negative ones included), and the integer part of \<open>q\<close> from 1 on.
\<close>

theorem sample_interval_truncates:
  "sample_interval_of (fps_of (Finite q)) =
     Inr (if q = 0 then 30 else if q < 1 then 1 else \<lfloor>q\<rfloor>)"
proof -
  consider "q = 0" | "q < 0" | "0 < q" "q < 1" | "1 \<le> q" by linarith
  then show ?thesis
  proof cases
    case 1
    then show ?thesis
      by (simp add: sample_interval_of_def fps_of_def truthy_def trunc_toward_zero_def)
  next
    case 2
    then have "\<lceil>q\<rceil> \<le> 0" by (simp add: ceiling_le_zero)
    with 2 show ?thesis
      by (simp add: sample_interval_of_def fps_of_def truthy_def trunc_toward_zero_def)
  next
    case 3
    then have "\<lfloor>q\<rfloor> = 0" by (simp add: floor_eq_iff)
    with 3 show ?thesis
      by (simp add: sample_interval_of_def fps_of_def truthy_def trunc_toward_zero_def)
  next
    case 4
    then have "1 \<le> \<lfloor>q\<rfloor>" by (simp add: le_floor_iff)
    with 4 show ?thesis
      by (simp add: sample_interval_of_def fps_of_def truthy_def trunc_toward_zero_def)
  qed
qed

section \<open>The cap of three samples (C2)\<close>

lemma entry_state_samples [simp]:
  "keypoints_samples (entry_state lib p cap width height) = []"
  by (simp add: entry_state_def initial_state_def)

lemma frame_loop_bound_result:
  "frame_loop lib si fs st = (res, st') \<Longrightarrow> length (keypoints_samples st) \<le> 3 \<Longrightarrow>
     length (keypoints_samples st') \<le> 3"
  using frame_loop_bound [of st lib si fs] by simp

lemma analyze_video_state_bound:
  "length (keypoints_samples (snd (analyze_video lib p cap))) \<le> 3"
proof (cases "is_opened cap")
  case False
  then show ?thesis by (simp add: analyze_video_def initial_state_def)
next
  case True
  note o = this
  show ?thesis
  proof (cases "width_of (frame_width cap)")
    case (Inl e)
    with o show ?thesis by (simp add: analyze_video_def initial_state_def)
  next
    case (Inr width)
    note w = this
    show ?thesis
    proof (cases "height_of (frame_height cap)")
      case (Inl e)
      with o w show ?thesis by (simp add: analyze_video_def initial_state_def)
    next
      case (Inr height)
      note h = this
      show ?thesis
      proof (cases "sample_interval_of (fps_of (frame_rate cap))")
        case (Inl e)
        with o w h show ?thesis by (simp add: analyze_video_def initial_state_def Let_def)
      next
        case (Inr si)
        obtain res st2 where
          l: "frame_loop lib si (frames cap) (entry_state lib p cap width height) = (res, st2)"
          by (cases "frame_loop lib si (frames cap) (entry_state lib p cap width height)")
        from frame_loop_bound_result [OF l] have "length (keypoints_samples st2) \<le> 3"
          by simp
        with analyze_video_loop [OF o w h Inr, of lib p] l show ?thesis
          by (cases res) simp_all
      qed
    qed
  qed
qed

text \<open>
  C2: the list of samples never holds more than 3 entries. The bound holds in the
  state after any number \<open>n\<close> of iterations of the frame loop (by \<open>frame_loop_append\<close>
  the loop over the first \<open>n\<close> frames is the loop's own state at that point), in the
  state in which analyze_video ends, whether it returns or raises, and for the list
  it returns.
\<close>

theorem keypoints_samples_at_most_three:
  "length (keypoints_samples
     (snd (frame_loop lib si (take n fs) (entry_state lib p cap width height)))) \<le> 3
   \<and> length (keypoints_samples (snd (analyze_video lib p cap))) \<le> 3
   \<and> (case fst (analyze_video lib p cap) of
        Inl e \<Rightarrow> True
      | Inr r \<Rightarrow> length (snd r) \<le> 3)"
proof (intro conjI)
  show "length (keypoints_samples
     (snd (frame_loop lib si (take n fs) (entry_state lib p cap width height)))) \<le> 3"
    by (rule frame_loop_bound) simp
  show "length (keypoints_samples (snd (analyze_video lib p cap))) \<le> 3"
    by (rule analyze_video_state_bound)
  show "case fst (analyze_video lib p cap) of
        Inl e \<Rightarrow> True
      | Inr r \<Rightarrow> length (snd r) \<le> 3"
  proof (cases "fst (analyze_video lib p cap)")
    case (Inl e)
    then show ?thesis by simp
  next
    case (Inr r)
    then obtain width height si st2 where
      l: "frame_loop lib si (frames cap) (entry_state lib p cap width height) = (None, st2)"
      and r: "r = (annotated_name_of lib p, keypoints_samples st2)"
      by (rule analyze_video_Inr)
    from frame_loop_bound_result [OF l] r Inr show ?thesis by simp
  qed
qed

section \<open>Frames written (C3, C4)\<close>






lemma entry_state_writer:
  "writer (entry_state lib p cap width height) = Some (output_writer lib p cap width height)"
  by (simp add: entry_state_def output_writer_def)

lemma output_writer_fields [simp]:
  "w_size (output_writer lib p cap width height) = (height, width)"
  "w_fps (output_writer lib p cap width height) = fps_of (frame_rate cap)"
  "w_frames (output_writer lib p cap width height) = []"
  "w_released (output_writer lib p cap width height) = False"
  by (simp_all add: output_writer_def VideoWriter_def)

text \<open>The writer that a returning run leaves behind.\<close>

lemma analyze_video_Inr_writer:
  assumes "fst (analyze_video lib p cap) = Inr r"
  obtains width height where
    "width_of (frame_width cap) = Inr width"
    "height_of (frame_height cap) = Inr height"
    "writer (snd (analyze_video lib p cap)) =
       Some ((output_writer lib p cap width height)
               \<lparr>w_frames :=
                  taken_frames (output_writer lib p cap width height)
                    (map (\<lambda>fi. rotate_90_clockwise (annotated lib fi)) (frames cap)),
                w_released := True\<rparr>)"
proof -
  from assms obtain width height si st2 where
    w: "width_of (frame_width cap) = Inr width"
    and h: "height_of (frame_height cap) = Inr height"
    and l: "frame_loop lib si (frames cap) (entry_state lib p cap width height) = (None, st2)"
    and s: "snd (analyze_video lib p cap) =
       st2\<lparr>pose := Exited, cap_released := True, writer := map_option release (writer st2)\<rparr>"
    by (rule analyze_video_Inr)
  from frame_loop_None_writer [OF l] have
    "writer st2 =
       Some ((output_writer lib p cap width height)
               \<lparr>w_frames :=
                  taken_frames (output_writer lib p cap width height)
                    (map (\<lambda>fi. rotate_90_clockwise (annotated lib fi)) (frames cap))\<rparr>)"
    by (simp add: entry_state_writer)
  with s have
    "writer (snd (analyze_video lib p cap)) =
       Some ((output_writer lib p cap width height)
               \<lparr>w_frames :=
                  taken_frames (output_writer lib p cap width height)
                    (map (\<lambda>fi. rotate_90_clockwise (annotated lib fi)) (frames cap)),
                w_released := True\<rparr>)"
    by (simp add: release_def)
  with w h that show thesis by blast
qed








section \<open>Which frames are sampled (C5)\<close>

text \<open>
  C5: a sampling slot without a detection is not filled from a later frame. When
  analyze_video returns, the samples are built from the sampling slots that had a
  detection, in frame order, cut off after the third: their number is the number of
  such slots, or 3 if there are more, and so falls below 3 when detections are sparse.
\<close>

theorem samples_are_detected_slots:
  assumes "fst (analyze_video lib p cap) = Inr (annotated_name, keypoints)"
    and "sample_interval_of (fps_of (frame_rate cap)) = Inr si"
  shows "map Inr keypoints =
           take 3 (map (landmark_dicts lib 0) (slot_detections si 0 (frames cap)))
         \<and> length keypoints = min 3 (length (slot_detections si 0 (frames cap)))"
proof -
  from assms(1) obtain width height si' st2 where
    s: "sample_interval_of (fps_of (frame_rate cap)) = Inr si'"
    and l: "frame_loop lib si' (frames cap) (entry_state lib p cap width height) = (None, st2)"
    and r: "(annotated_name, keypoints) = (annotated_name_of lib p, keypoints_samples st2)"
    by (rule analyze_video_Inr)
  from s assms(2) have "si' = si" by simp
  with frame_loop_None_samples [OF l] r have
    m: "map Inr keypoints =
          take 3 (map (landmark_dicts lib 0) (slot_detections si 0 (frames cap)))"
    by (simp add: entry_state_def initial_state_def)
  have "length keypoints = length (map Inr keypoints :: (exn + pydict list) list)"
    by simp
  also have "\<dots> = min 3 (length (slot_detections si 0 (frames cap)))"
    by (simp only: m) simp
  finally show ?thesis using m by simp
qed

theorem samples_are_detected_slots_witness:
  "fst (analyze_video demo_library demo_path demo_video) =
     Inr (''clip_annotated.mp4'',
          keypoints_samples (snd (analyze_video demo_library demo_path demo_video)))
   \<and> sample_interval_of (fps_of (frame_rate demo_video)) = Inr 2
   \<and> slot_detections 2 0 (frames demo_video) = [[demo_landmark], [demo_landmark]]
   \<and> length (keypoints_samples (snd (analyze_video demo_library demo_path demo_video))) = 2"
proof -
  have h: "fst (analyze_video demo_library demo_path demo_video) =
     Inr (''clip_annotated.mp4'',
          keypoints_samples (snd (analyze_video demo_library demo_path demo_video)))"
    by (simp add: demo_run)
  have i: "sample_interval_of (fps_of (frame_rate demo_video)) = Inr 2"
    by (simp add: demo_video_def sample_interval_of_def fps_of_def truthy_def
          trunc_toward_zero_def)
  from samples_are_detected_slots [OF h i] h i demo_slots show ?thesis
    by simp
qed

section \<open>Defaults for the reported properties (C6, C7)\<close>

lemma analyze_video_writer_field:
  assumes "is_opened cap"
    and "width_of (frame_width cap) = Inr width"
    and "height_of (frame_height cap) = Inr height"
    and g: "\<And>f w. g (write_frame f w) = g w" "\<And>w. g (release w) = g w"
  shows "map_option g (writer (snd (analyze_video lib p cap))) =
           Some (g (output_writer lib p cap width height))"
proof (cases "sample_interval_of (fps_of (frame_rate cap))")
  case (Inl e)
  with assms(1-3) show ?thesis
    by (simp add: analyze_video_def Let_def annotated_name_of_def output_writer_def)
next
  case (Inr si)
  obtain res st2 where
    l: "frame_loop lib si (frames cap) (entry_state lib p cap width height) = (res, st2)"
    by (cases "frame_loop lib si (frames cap) (entry_state lib p cap width height)")
  from frame_loop_writer [of g lib si "frames cap" "entry_state lib p cap width height"] g(1) l
  have w2: "map_option g (writer st2) =
          Some (g (output_writer lib p cap width height))"
    by (simp add: entry_state_writer)
  then obtain w where w: "writer st2 = Some w" by (cases "writer st2") auto
  from analyze_video_loop [OF assms(1-3) Inr, of lib p] l w w2 g(2) show ?thesis
    by (cases res) simp_all
qed




text \<open>
  C7, as stated, fails when only one of the two is zero: each default is substituted
  on its own. A reader reporting width 0 and height 720 gives the dimensions
  640 by 720, not 640 by 480, so the writer is opened at (720, 640).
\<close>

theorem zero_width_alone_counterexample:
  "map_option w_size
     (writer (snd (analyze_video demo_library demo_path
                     (demo_video\<lparr>frame_width := Finite 0, frame_height := Finite 720\<rparr>))))
     = Some (720, 640)
   \<and> width_of (Finite 0) = Inr 640 \<and> height_of (Finite 720) = Inr 720"
proof -
  have "map_option w_size
     (writer (snd (analyze_video demo_library demo_path
                     (demo_video\<lparr>frame_width := Finite 0, frame_height := Finite 720\<rparr>))))
     = Some (720, 640)"
    by (simp add: run_defs)
  moreover have "width_of (Finite 0) = Inr 640 \<and> height_of (Finite 720) = Inr 720"
    by (simp add: width_of_def height_of_def trunc_toward_zero_def)
  ultimately show ?thesis by simp
qed

text \<open>
  C7, amended: in step 1 of analyze_video each dimension has its own default: a
  width whose integer part is zero is replaced by 640, a height whose integer part
  is zero is replaced by 480, and a dimension that is not zero is kept even when the
  other one is defaulted. The writer is opened at the resulting (height, width).
\<close>

theorem dimension_defaults_independent:
  assumes "is_opened cap"
    and "py_int (frame_width cap) = Inr w"
    and "py_int (frame_height cap) = Inr h"
  shows "map_option w_size (writer (snd (analyze_video lib p cap))) =
           Some (if h = 0 then 480 else h, if w = 0 then 640 else w)"
proof -
  from assms(2) have w: "width_of (frame_width cap) = Inr (if w = 0 then 640 else w)"
    by (simp add: width_of_def)
  from assms(3) have h: "height_of (frame_height cap) = Inr (if h = 0 then 480 else h)"
    by (simp add: height_of_def)
  from analyze_video_writer_field [OF assms(1) w h, of w_size lib p] show ?thesis
    by (simp add: write_frame_def release_def)
qed

theorem dimension_defaults_independent_witness:
  "is_opened (demo_video\<lparr>frame_width := Finite 0, frame_height := Finite 0\<rparr>)
   \<and> py_int (frame_width (demo_video\<lparr>frame_width := Finite 0, frame_height := Finite 0\<rparr>))
       = Inr 0
   \<and> py_int (frame_height (demo_video\<lparr>frame_width := Finite 0, frame_height := Finite 0\<rparr>))
       = Inr 0
   \<and> map_option w_size
       (writer (snd (analyze_video demo_library demo_path
                       (demo_video\<lparr>frame_width := Finite 0, frame_height := Finite 0\<rparr>))))
       = Some (480, 640)"
proof -
  let ?v = "demo_video\<lparr>frame_width := Finite 0, frame_height := Finite 0\<rparr>"
  have o: "is_opened ?v"
    by (simp add: demo_video_def)
  have w: "py_int (frame_width ?v) = Inr 0"
    by (simp add: trunc_toward_zero_def)
  have h: "py_int (frame_height ?v) = Inr 0"
    by (simp add: trunc_toward_zero_def)
  from dimension_defaults_independent [OF o w h, of demo_library demo_path] o w h
  show ?thesis by simp
qed

section \<open>Release of the reader and the writer (C8)\<close>

text \<open>
  C8, as stated, fails on the exception path: \<open>cap.release()\<close> and
  \<open>writer.release()\<close> stand after the \<open>with\<close> block, outside any \<open>finally\<close>. When
  pose estimation raises on the second frame, analyze_video raises with the reader
  not released and the writer not finalized; only the pose session has been left.
\<close>

theorem exception_skips_release_counterexample:
  "fst (analyze_video demo_library demo_path faulty_video) =
     Inl (LibraryError ''inference failed'')
   \<and> cap_released (snd (analyze_video demo_library demo_path faulty_video)) = False
   \<and> map_option w_released (writer (snd (analyze_video demo_library demo_path faulty_video)))
       = Some False
   \<and> pose (snd (analyze_video demo_library demo_path faulty_video)) = Exited"
  by (simp add: faulty_run)

text \<open>
  The same in general: whenever analyze_video raises, the reader has not been
  released and no writer has been finalized, while the pose session is never left
  entered.
\<close>

lemma analyze_video_raises_state:
  assumes "fst (analyze_video lib p cap) = Inl e"
  shows "\<not> cap_released (snd (analyze_video lib p cap))
         \<and> map_option w_released (writer (snd (analyze_video lib p cap))) \<noteq> Some True
         \<and> pose (snd (analyze_video lib p cap)) \<noteq> Entered"
proof (cases "is_opened cap")
  case False
  then show ?thesis by (simp add: analyze_video_def initial_state_def)
next
  case True
  note o = this
  show ?thesis
  proof (cases "width_of (frame_width cap)")
    case (Inl e)
    with o show ?thesis by (simp add: analyze_video_def initial_state_def)
  next
    case (Inr width)
    note w = this
    show ?thesis
    proof (cases "height_of (frame_height cap)")
      case (Inl e)
      with o w show ?thesis by (simp add: analyze_video_def initial_state_def)
    next
      case (Inr height)
      note h = this
      show ?thesis
      proof (cases "sample_interval_of (fps_of (frame_rate cap))")
        case (Inl e)
        with o w h show ?thesis
          by (simp add: analyze_video_def initial_state_def Let_def VideoWriter_def)
      next
        case (Inr si)
        let ?st = "entry_state lib p cap width height"
        obtain res st2 where l: "frame_loop lib si (frames cap) ?st = (res, st2)"
          by (cases "frame_loop lib si (frames cap) ?st")
        note run = analyze_video_loop [OF o w h Inr, of lib p]
        from assms run l obtain e' where r: "res = Some e'" by (cases res) auto
        from frame_loop_cap [of lib si "frames cap" ?st] l
        have c: "\<not> cap_released st2" by (simp add: entry_state_def initial_state_def)
        from frame_loop_writer [of w_released lib si "frames cap" ?st] l
        have "map_option w_released (writer st2) = Some False"
          by (simp add: entry_state_writer VideoWriter_def write_frame_def)
        with run l r c show ?thesis by auto
      qed
    qed
  qed
qed

text \<open>
  C8, amended: on every exit path of the frame loop that is not an exception, that is
  when the loop ends by an unsuccessful read, at the end of the video or at a read
  failure, the video reader is released and the video writer is finalized; the pose
  session has been left as well.
\<close>

theorem release_on_normal_completion:
  assumes "fst (analyze_video lib p cap) = Inr r"
  shows "cap_released (snd (analyze_video lib p cap))
         \<and> map_option w_released (writer (snd (analyze_video lib p cap))) = Some True
         \<and> pose (snd (analyze_video lib p cap)) = Exited"
proof -
  from assms obtain width height where
    w: "writer (snd (analyze_video lib p cap)) =
       Some ((output_writer lib p cap width height)
               \<lparr>w_frames :=
                  taken_frames (output_writer lib p cap width height)
                    (map (\<lambda>fi. rotate_90_clockwise (annotated lib fi)) (frames cap)),
                w_released := True\<rparr>)"
    by (rule analyze_video_Inr_writer)
  from assms obtain st2 where
    "snd (analyze_video lib p cap) =
       st2\<lparr>pose := Exited, cap_released := True, writer := map_option release (writer st2)\<rparr>"
    by (rule analyze_video_Inr)
  then have "cap_released (snd (analyze_video lib p cap))"
    and "pose (snd (analyze_video lib p cap)) = Exited"
    by simp_all
  with w show ?thesis by simp
qed

theorem release_on_normal_completion_witness:
  "fst (analyze_video demo_library demo_path demo_video) =
     Inr (''clip_annotated.mp4'',
          keypoints_samples (snd (analyze_video demo_library demo_path demo_video)))
   \<and> cap_released (snd (analyze_video demo_library demo_path demo_video))
   \<and> map_option w_released (writer (snd (analyze_video demo_library demo_path demo_video)))
       = Some True
   \<and> pose (snd (analyze_video demo_library demo_path demo_video)) = Exited"
proof -
  have h: "fst (analyze_video demo_library demo_path demo_video) =
     Inr (''clip_annotated.mp4'',
          keypoints_samples (snd (analyze_video demo_library demo_path demo_video)))"
    by (simp add: demo_run)
  from release_on_normal_completion [OF h] h show ?thesis
    by blast
qed

section \<open>The upload endpoint (C9)\<close>

lemma json_compliant_payload:
  "json_compliant
     (Dict [(''message'', Str m), (''filename'', Str f), (''annotated'', Str a),
            (''keypoints'', Lst (map (\<lambda>sample. Lst (map Dict sample)) keypoints))]) =
     list_all (list_all (list_all (\<lambda>kv. json_compliant (snd kv)))) keypoints"
  by (simp add: list_all_iff)

text \<open>
  C9, as stated, fails in its "only if": the response of line 111 is built outside
  the \<open>try\<close>, and rendering it raises on a float that is not finite. On a video
  whose one sampled landmark has the position NaN, analyze_video returns its sample,
  and the endpoint still fails, with the uncaught \<open>ValueError\<close> and not with the
  fixed message.
\<close>

theorem nan_sample_counterexample:
  "fst (analyze_video demo_library
          \<lparr>parent = ''uploads'', name = ''20240101_120000_c0ffee_clip.mp4''\<rparr> nan_video) =
     Inr (''20240101_120000_c0ffee_clip_annotated.mp4'',
          [[[(''name'', Str ''NOSE''), (''x'', Num NaN), (''y'', Num (Finite (1 / 4))),
             (''visibility'', Num (Finite 1))]]])
   \<and> upload_video demo_library ''uploads'' ''20240101_120000'' ''c0ffee'' ''clip.mp4'' None
       nan_video =
       Inl (Unhandled (ValueError ''Out of range float values are not JSON compliant''))"
proof -
  have a: "fst (analyze_video demo_library
          \<lparr>parent = ''uploads'', name = ''20240101_120000_c0ffee_clip.mp4''\<rparr> nan_video) =
     Inr (''20240101_120000_c0ffee_clip_annotated.mp4'',
          [[[(''name'', Str ''NOSE''), (''x'', Num NaN), (''y'', Num (Finite (1 / 4))),
             (''visibility'', Num (Finite 1))]]])"
    by (simp add: run_defs nan_video_def)
  then have "upload_video demo_library ''uploads'' ''20240101_120000'' ''c0ffee'' ''clip.mp4''
       None nan_video =
       Inl (Unhandled (ValueError ''Out of range float values are not JSON compliant''))"
    by (simp add: upload_video_def JSONResponse_def)
  with a show ?thesis by simp
qed

text \<open>
  C9, amended: for an upload that has been stored, the endpoint answers with the
  status 500 and the one fixed message exactly when analyze_video raises: any
  exception escaping analyze_video, an open failure among them, is converted so, its
  detail is discarded, and no sample list or payload is returned. When analyze_video
  returns and every float of the samples is finite, the full payload with message,
  file name, annotated name and keypoints is returned; when a float of the samples
  is not finite, building the response raises and the handler does not catch it.
\<close>

theorem upload_fixed_failure_iff_analysis_raises:
  "(upload_video lib dir timestamp token filename None cap =
      Inl (HTTPException 500 ''Analyse des Videos fehlgeschlagen''))
     = isl (fst (analyze_video lib
                   \<lparr>parent = dir, name = timestamp @ ''_'' @ token @ ''_'' @ filename\<rparr> cap))
   \<and> upload_video lib dir timestamp token filename None cap =
       (case fst (analyze_video lib
                    \<lparr>parent = dir, name = timestamp @ ''_'' @ token @ ''_'' @ filename\<rparr> cap) of
          Inl exc \<Rightarrow> Inl (HTTPException 500 ''Analyse des Videos fehlgeschlagen'')
        | Inr r \<Rightarrow>
            if list_all (list_all (list_all (\<lambda>kv. json_compliant (snd kv)))) (snd r)
            then Inr [(''message'', Str ''Video erfolgreich analysiert''),
                      (''filename'', Str (timestamp @ ''_'' @ token @ ''_'' @ filename)),
                      (''annotated'', Str (fst r)),
                      (''keypoints'', Lst (map (\<lambda>sample. Lst (map Dict sample)) (snd r)))]
            else Inl (Unhandled
                        (ValueError ''Out of range float values are not JSON compliant'')))
   \<and> (\<not> is_opened cap \<longrightarrow>
        upload_video lib dir timestamp token filename None cap =
          Inl (HTTPException 500 ''Analyse des Videos fehlgeschlagen''))"
proof (intro conjI impI)
  let ?a = "fst (analyze_video lib
                 \<lparr>parent = dir, name = timestamp @ ''_'' @ token @ ''_'' @ filename\<rparr> cap)"
  show c: "upload_video lib dir timestamp token filename None cap =
       (case ?a of
          Inl exc \<Rightarrow> Inl (HTTPException 500 ''Analyse des Videos fehlgeschlagen'')
        | Inr r \<Rightarrow>
            if list_all (list_all (list_all (\<lambda>kv. json_compliant (snd kv)))) (snd r)
            then Inr [(''message'', Str ''Video erfolgreich analysiert''),
                      (''filename'', Str (timestamp @ ''_'' @ token @ ''_'' @ filename)),
                      (''annotated'', Str (fst r)),
                      (''keypoints'', Lst (map (\<lambda>sample. Lst (map Dict sample)) (snd r)))]
            else Inl (Unhandled
                        (ValueError ''Out of range float values are not JSON compliant'')))"
  proof (cases ?a)
    case (Inl e)
    then show ?thesis by (simp add: upload_video_def Let_def)
  next
    case (Inr r)
    obtain a ks where r: "r = (a, ks)" by (cases r)
    with Inr show ?thesis
      by (simp add: upload_video_def Let_def JSONResponse_def json_compliant_payload
            del: json_compliant.simps)
  qed
  show "(upload_video lib dir timestamp token filename None cap =
      Inl (HTTPException 500 ''Analyse des Videos fehlgeschlagen'')) = isl ?a"
    by (cases ?a) (simp_all add: c)
  show "upload_video lib dir timestamp token filename None cap =
          Inl (HTTPException 500 ''Analyse des Videos fehlgeschlagen'')"
    if "\<not> is_opened cap"
    using that by (simp add: upload_video_def analyze_video_def)
qed

theorem upload_fixed_failure_iff_analysis_raises_witness:
  "\<not> is_opened (demo_video\<lparr>is_opened := False\<rparr>)
   \<and> upload_video demo_library ''uploads'' ''20240101_120000'' ''c0ffee'' ''notes.txt'' None
       (demo_video\<lparr>is_opened := False\<rparr>) =
       Inl (HTTPException 500 ''Analyse des Videos fehlgeschlagen'')"
proof -
  have h: "\<not> is_opened (demo_video\<lparr>is_opened := False\<rparr>)"
    by simp
  from upload_fixed_failure_iff_analysis_raises
         [of demo_library "''uploads''" "''20240101_120000''" "''c0ffee''" "''notes.txt''"
             "demo_video\<lparr>is_opened := False\<rparr>"]
  have "\<not> is_opened (demo_video\<lparr>is_opened := False\<rparr>) \<longrightarrow>
        upload_video demo_library ''uploads'' ''20240101_120000'' ''c0ffee'' ''notes.txt''
          None (demo_video\<lparr>is_opened := False\<rparr>) =
          Inl (HTTPException 500 ''Analyse des Videos fehlgeschlagen'')"
    by blast
  with h show ?thesis by blast
qed

section \<open>Open failure (C10)\<close>

text \<open>
  C10: when the video does not open, analyze_video raises the open failure in the
  initial state: no writer has been constructed, so no annotated file exists, not
  even an empty one; the pose session has not been created, and the sample list and
  the frame counter are untouched. The frames of the file play no part.
\<close>

theorem open_failure_before_writer:
  assumes "\<not> is_opened cap"
  shows "fst (analyze_video lib p cap) = Inl open_failure
         \<and> writer (snd (analyze_video lib p cap)) = None
         \<and> pose (snd (analyze_video lib p cap)) = NotCreated
         \<and> keypoints_samples (snd (analyze_video lib p cap)) = []
         \<and> frame_index (snd (analyze_video lib p cap)) = 0
         \<and> analyze_video lib p (cap\<lparr>frames := fs\<rparr>) = analyze_video lib p cap"
  using assms by (simp add: analyze_video_def initial_state_def)

theorem open_failure_before_writer_witness:
  "\<not> is_opened (demo_video\<lparr>is_opened := False\<rparr>)
   \<and> fst (analyze_video demo_library demo_path (demo_video\<lparr>is_opened := False\<rparr>)) =
       Inl open_failure
   \<and> writer (snd (analyze_video demo_library demo_path (demo_video\<lparr>is_opened := False\<rparr>))) =
       None"
proof -
  have h: "\<not> is_opened (demo_video\<lparr>is_opened := False\<rparr>)"
    by simp
  from open_failure_before_writer [OF h, of demo_library demo_path "[]"] h
  show ?thesis by blast
qed

end
